theory Spec2Isabelle
  imports Main "HOL-Library.Word"
begin

section \<open>JSONB path expressions (selectors.go)\<close>

text \<open>
  Go strings are byte strings; \<^typ>\<open>string\<close> is a list of bytes as well. The
  apostrophe is written \<open>CHR 0x27\<close>.
\<close>

definition apostrophe :: char where
  "apostrophe = CHR 0x27"

text \<open>
  \<^verbatim>\<open>strings.ReplaceAll(segment, "'", "''")\<close>: the pattern is one byte long, so the
  replacement works byte by byte.
\<close>

fun escapeJsonPathSegment :: "string \<Rightarrow> string" where
  "escapeJsonPathSegment [] = []"
| "escapeJsonPathSegment (c # cs) =
     (if c = apostrophe then apostrophe # apostrophe # escapeJsonPathSegment cs
      else c # escapeJsonPathSegment cs)"

text \<open>\<^verbatim>\<open>fmt.Sprintf(" %s '%s'", operator, escapeJsonPathSegment(segment))\<close>\<close>

definition sprintf_segment :: "string \<Rightarrow> string \<Rightarrow> string" where
  "sprintf_segment operator segment =
     '' '' @ operator @ '' '' @ [apostrophe] @ escapeJsonPathSegment segment @ [apostrophe]"

text \<open>
  The \<^verbatim>\<open>for idx, segment := range path\<close> loop of \<^verbatim>\<open>jsonbPathExpression\<close>:
  \<open>n\<close> is \<^verbatim>\<open>len(path)\<close>, \<open>idx\<close> the index of the head of the remaining
  segments, \<open>expr\<close> the expression built so far. The test \<^verbatim>\<open>idx == len(path)-1\<close>
  is on Go ints, so it is written on \<^typ>\<open>int\<close>.
\<close>

fun jsonbPathLoop :: "bool \<Rightarrow> nat \<Rightarrow> nat \<Rightarrow> string list \<Rightarrow> string \<Rightarrow> string" where
  "jsonbPathLoop text n idx [] expr = expr"
| "jsonbPathLoop text n idx (segment # rest) expr =
     (if segment = [] then jsonbPathLoop text n (Suc idx) rest expr
      else jsonbPathLoop text n (Suc idx) rest
             (expr @ sprintf_segment
                (if text \<and> int idx = int n - 1 then ''->>'' else ''->'') segment))"

definition jsonbPathExpression :: "string list \<Rightarrow> bool \<Rightarrow> string" where
  "jsonbPathExpression path text =
     jsonbPathLoop text (length path) 0 path ''?TableAlias.?''"

text \<open>
  The expression as the specification words it: one operator per non-empty segment, in
  order; the text operator for the last non-empty segment when text is wanted, the
  object operator everywhere else.
\<close>

fun emit_segments :: "bool \<Rightarrow> string list \<Rightarrow> string" where
  "emit_segments text [] = []"
| "emit_segments text [segment] =
     sprintf_segment (if text then ''->>'' else ''->'') segment"
| "emit_segments text (segment # rest) =
     sprintf_segment ''->'' segment @ emit_segments text rest"

definition jsonbPathExpression_spec :: "string list \<Rightarrow> bool \<Rightarrow> string" where
  "jsonbPathExpression_spec path text =
     ''?TableAlias.?'' @ emit_segments text (filter (\<lambda>segment. segment \<noteq> []) path)"

section \<open>The query builder consumed by the selectors\<close>

text \<open>
  \<^verbatim>\<open>*bun.SelectQuery\<close> belongs to the external query engine. It is modelled as the
  record of what has been asked of it: the conditions appended, the groups opened, the
  soft-delete toggles called, the projection, limit, offset and order. Every method
  mutates the receiver and returns it, so a call whose result the source drops
  (\<^verbatim>\<open>q.WhereDeleted()\<close>) still changes the query; here each method takes the query
  and returns the changed one.
\<close>

datatype go_value =
    StringVal string
  | IntVal "64 word"
  | StringsVal "string list"
  | UnixMilli "64 word"

text \<open>Arguments of a condition: \<^verbatim>\<open>bun.Ident(col)\<close>, \<^verbatim>\<open>bun.In(values)\<close>, or a plain value.\<close>

datatype arg = Ident string | In go_value | Val go_value

datatype where_item =
    Cond string "arg list"
  | Group string "where_item list"

datatype soft_delete_call = WhereDeleted | WhereAllWithDeleted

record select_query =
  q_where :: "where_item list"
  q_soft_delete :: "soft_delete_call list"
  q_columns :: "string list"
  q_exclude :: "string list"
  q_limit :: "64 word option"
  q_offset :: "64 word option"
  q_order :: "string list"

definition SelectQuery_Where :: "string \<Rightarrow> arg list \<Rightarrow> select_query \<Rightarrow> select_query" where
  "SelectQuery_Where query args q = q\<lparr>q_where := q_where q @ [Cond query args]\<rparr>"

text \<open>
  \<^verbatim>\<open>WhereGroup(sep, fn)\<close> sets the conditions aside, runs \<open>fn\<close> on the query with no
  conditions, and appends what \<open>fn\<close> added as one group after the conditions set aside;
  a group with no condition is not appended.
\<close>

definition SelectQuery_WhereGroup ::
  "string \<Rightarrow> (select_query \<Rightarrow> select_query) \<Rightarrow> select_query \<Rightarrow> select_query" where
  "SelectQuery_WhereGroup sep fn q =
     (let sub = fn (q\<lparr>q_where := []\<rparr>)
      in sub\<lparr>q_where := q_where q @ (if q_where sub = [] then [] else [Group sep (q_where sub)])\<rparr>)"

definition SelectQuery_WhereDeleted :: "select_query \<Rightarrow> select_query" where
  "SelectQuery_WhereDeleted q = q\<lparr>q_soft_delete := q_soft_delete q @ [WhereDeleted]\<rparr>"

definition SelectQuery_WhereAllWithDeleted :: "select_query \<Rightarrow> select_query" where
  "SelectQuery_WhereAllWithDeleted q = q\<lparr>q_soft_delete := q_soft_delete q @ [WhereAllWithDeleted]\<rparr>"

definition SelectQuery_Column :: "string list \<Rightarrow> select_query \<Rightarrow> select_query" where
  "SelectQuery_Column cols q = q\<lparr>q_columns := q_columns q @ cols\<rparr>"

definition SelectQuery_ExcludeColumn :: "string list \<Rightarrow> select_query \<Rightarrow> select_query" where
  "SelectQuery_ExcludeColumn cols q = q\<lparr>q_exclude := q_exclude q @ cols\<rparr>"

definition SelectQuery_Limit :: "64 word \<Rightarrow> select_query \<Rightarrow> select_query" where
  "SelectQuery_Limit n q = q\<lparr>q_limit := Some n\<rparr>"

definition SelectQuery_Offset :: "64 word \<Rightarrow> select_query \<Rightarrow> select_query" where
  "SelectQuery_Offset n q = q\<lparr>q_offset := Some n\<rparr>"

definition SelectQuery_Order :: "string \<Rightarrow> select_query \<Rightarrow> select_query" where
  "SelectQuery_Order ord q = q\<lparr>q_order := q_order q @ [ord]\<rparr>"

definition NewSelect :: select_query where
  "NewSelect = \<lparr>q_where = [], q_soft_delete = [], q_columns = [], q_exclude = [],
     q_limit = None, q_offset = None, q_order = []\<rparr>"

section \<open>Selectors and their combinators (selectors.go)\<close>

text \<open>
  \<^verbatim>\<open>type Selector func(*bun.SelectQuery) *bun.SelectQuery\<close>. A func value may be nil:
  \<open>None\<close> is the nil Selector, and calling it panics.
\<close>

type_synonym Selector = "(select_query \<Rightarrow> select_query) option"

datatype panic_value = NilDereference | PanicValue string

definition call_Selector :: "Selector \<Rightarrow> select_query \<Rightarrow> panic_value + select_query" where
  "call_Selector selector q = (case selector of None \<Rightarrow> Inl NilDereference | Some f \<Rightarrow> Inr (f q))"

text \<open>The loop of the closure that \<^verbatim>\<open>Apply\<close> returns.\<close>

fun Apply_closure :: "Selector list \<Rightarrow> select_query \<Rightarrow> select_query" where
  "Apply_closure [] q = q"
| "Apply_closure (selector # rest) q =
     (case selector of
        None \<Rightarrow> Apply_closure rest q
      | Some f \<Rightarrow> Apply_closure rest (f q))"

definition Apply :: "Selector list \<Rightarrow> Selector" where
  "Apply selectors = Some (Apply_closure selectors)"

definition ApplyIf :: "bool \<Rightarrow> Selector list \<Rightarrow> Selector" where
  "ApplyIf cond selectors = (if \<not> cond then None else Apply selectors)"

text \<open>
  \<^verbatim>\<open>Apply(selectors...)(sq)\<close> calls the closure \<^verbatim>\<open>Apply\<close> has just returned, which is
  never nil.
\<close>

definition OrGroup :: "Selector list \<Rightarrow> Selector" where
  "OrGroup selectors =
     Some (\<lambda>q. SelectQuery_WhereGroup '' OR '' (\<lambda>sq. Apply_closure selectors sq) q)"

definition AndGroup :: "Selector list \<Rightarrow> Selector" where
  "AndGroup selectors =
     Some (\<lambda>q. SelectQuery_WhereGroup '' AND '' (\<lambda>sq. Apply_closure selectors sq) q)"

text \<open>
  Modelled from the spec: the helper \<^verbatim>\<open>Map\<close> that \<^verbatim>\<open>Or\<close> calls is not among the
  source files. By the specification \<^verbatim>\<open>Or\<close> wraps each input predicate individually,
  so \<^verbatim>\<open>Map\<close> applies the callback to each element and its index, in order, and
  collects the results.
\<close>

fun Map_from :: "nat \<Rightarrow> 'a list \<Rightarrow> ('a \<Rightarrow> nat \<Rightarrow> 'b) \<Rightarrow> 'b list" where
  "Map_from i [] f = []"
| "Map_from i (x # xs) f = f x i # Map_from (Suc i) xs f"

definition Map :: "'a list \<Rightarrow> ('a \<Rightarrow> nat \<Rightarrow> 'b) \<Rightarrow> 'b list" where
  "Map xs f = Map_from 0 xs f"

definition Or :: "Selector list \<Rightarrow> Selector" where
  "Or selectors = AndGroup (Map selectors (\<lambda>s _. OrGroup [s]))"

definition WhereEqual :: "string \<Rightarrow> go_value \<Rightarrow> Selector" where
  "WhereEqual col v = Some (SelectQuery_Where ''?TableAlias.? = ?'' [Ident col, Val v])"

definition WhereNotNull :: "string \<Rightarrow> Selector" where
  "WhereNotNull col = Some (SelectQuery_Where ''?TableAlias.? is not null'' [Ident col])"

definition WhereJsonbPathEqual :: "string \<Rightarrow> string list \<Rightarrow> go_value \<Rightarrow> Selector" where
  "WhereJsonbPathEqual col path v =
     Some (SelectQuery_Where (jsonbPathExpression path True @ '' = ?'') [Ident col, Val v])"

section \<open>The filter descriptor \<open>Where\<close>\<close>

definition DefaultIDCol :: string where "DefaultIDCol = ''id''"
definition DefaultFlagsCol :: string where "DefaultFlagsCol = ''flags''"
definition DefaultCreatedAtCol :: string where "DefaultCreatedAtCol = ''created_at''"
definition DefaultUpdatedAtCol :: string where "DefaultUpdatedAtCol = ''updated_at''"

text \<open>
  Go's \<^verbatim>\<open>int\<close> is taken as 64 bits wide; a pointer field (\<^verbatim>\<open>*int\<close>, \<^verbatim>\<open>*int64\<close>) is an
  option, \<open>None\<close> for nil; \<^verbatim>\<open>type Order map[int]string\<close> is a map.
\<close>

type_synonym Order = "64 word \<rightharpoonup> string"

record Where =
  ID :: string
  IDs :: "string list"
  NotInIDs :: "string list"
  HasFlags :: "64 word list"
  HasNotFlags :: "64 word list"
  OnlyDeleted :: bool
  WithDeleted :: bool
  Limit :: "64 word option"
  Offset :: "64 word option"
  FlagsCol :: string
  CreatedAtCol :: string
  UpdatedAtCol :: string
  CreatedAfter :: "64 word option"
  CreatedBefore :: "64 word option"
  UpdatedAfter :: "64 word option"
  UpdatedBefore :: "64 word option"
  SelectColumns :: "string list"
  ExcludeColumns :: "string list"
  SortBy :: "64 word"
  SortDesc :: bool
  Order :: Order

text \<open>The two \<^verbatim>\<open>range\<close> loops over the flag lists.\<close>

fun HasFlags_loop :: "64 word list \<Rightarrow> select_query \<Rightarrow> select_query" where
  "HasFlags_loop [] q = q"
| "HasFlags_loop (flag # rest) q =
     HasFlags_loop rest
       (SelectQuery_Where ''?TableAlias.? & ? = ?''
          [Ident DefaultFlagsCol, Val (IntVal flag), Val (IntVal flag)] q)"

fun HasNotFlags_loop :: "64 word list \<Rightarrow> select_query \<Rightarrow> select_query" where
  "HasNotFlags_loop [] q = q"
| "HasNotFlags_loop (flag # rest) q =
     HasNotFlags_loop rest
       (SelectQuery_Where ''?TableAlias.? & ? = 0'' [Ident DefaultFlagsCol, Val (IntVal flag)] q)"

text \<open>
  The lazy defaults of \<^verbatim>\<open>(*Where).Where\<close>, written into the descriptor in place.
\<close>

definition inject_defaults :: "Where \<Rightarrow> Where" where
  "inject_defaults w =
     (let w = (if FlagsCol w = [] then w\<lparr>FlagsCol := DefaultFlagsCol\<rparr> else w);
          w = (if CreatedAtCol w = [] then w\<lparr>CreatedAtCol := DefaultCreatedAtCol\<rparr> else w);
          w = (if UpdatedAtCol w = [] then w\<lparr>UpdatedAtCol := DefaultUpdatedAtCol\<rparr> else w)
      in w)"

text \<open>The conditions of \<^verbatim>\<open>(*Where).Where\<close>, in the order of the source.\<close>

definition emit_conditions :: "Where \<Rightarrow> select_query \<Rightarrow> select_query" where
  "emit_conditions w q =
     (let q = (if ID w \<noteq> []
               then SelectQuery_Where ''?TableAlias.? = ?'' [Ident DefaultIDCol, Val (StringVal (ID w))] q
               else q);
          q = (if length (IDs w) > 0
               then SelectQuery_Where ''?TableAlias.? IN (?)'' [Ident DefaultIDCol, In (StringsVal (IDs w))] q
               else q);
          q = (if length (NotInIDs w) > 0
               then SelectQuery_Where ''?TableAlias.? NOT IN (?)''
                      [Ident DefaultIDCol, In (StringsVal (NotInIDs w))] q
               else q);
          q = HasFlags_loop (HasFlags w) q;
          q = HasNotFlags_loop (HasNotFlags w) q;
          q = (if OnlyDeleted w then SelectQuery_WhereDeleted q
               else if WithDeleted w then SelectQuery_WhereAllWithDeleted q
               else q);
          q = (case CreatedAfter w of None \<Rightarrow> q
               | Some ms \<Rightarrow> SelectQuery_Where ''?TableAlias.? >= ?''
                              [Ident DefaultCreatedAtCol, Val (UnixMilli ms)] q);
          q = (case CreatedBefore w of None \<Rightarrow> q
               | Some ms \<Rightarrow> SelectQuery_Where ''?TableAlias.? <= ?''
                              [Ident DefaultCreatedAtCol, Val (UnixMilli ms)] q);
          q = (case UpdatedAfter w of None \<Rightarrow> q
               | Some ms \<Rightarrow> SelectQuery_Where ''?TableAlias.? >= ?''
                              [Ident DefaultUpdatedAtCol, Val (UnixMilli ms)] q);
          q = (case UpdatedBefore w of None \<Rightarrow> q
               | Some ms \<Rightarrow> SelectQuery_Where ''?TableAlias.? <= ?''
                              [Ident DefaultUpdatedAtCol, Val (UnixMilli ms)] q)
      in q)"

text \<open>
  \<^verbatim>\<open>func (w *Where) Where(q *bun.SelectQuery) *bun.SelectQuery\<close>: the receiver is a
  pointer, \<open>None\<close> when nil. The result is the descriptor as the call leaves it and the
  query.
\<close>

definition Where_Where :: "Where option \<Rightarrow> select_query \<Rightarrow> Where option \<times> select_query" where
  "Where_Where w q =
     (case w of
        None \<Rightarrow> (None, q)
      | Some w \<Rightarrow> (let w = inject_defaults w in (Some w, emit_conditions w q)))"

definition OrderAsc :: "string \<Rightarrow> string" where
  "OrderAsc col = col @ '' asc''"

definition OrderDesc :: "string \<Rightarrow> string" where
  "OrderDesc col = col @ '' desc''"

text \<open>\<^verbatim>\<open>func (w *Where) Select(q *bun.SelectQuery) *bun.SelectQuery\<close>\<close>

definition Where_Select :: "Where option \<Rightarrow> select_query \<Rightarrow> select_query" where
  "Where_Select w q =
     (case w of
        None \<Rightarrow> q
      | Some w \<Rightarrow>
         (let q = (if length (SelectColumns w) > 0 then SelectQuery_Column (SelectColumns w) q else q);
              q = (if length (ExcludeColumns w) > 0
                   then SelectQuery_ExcludeColumn (ExcludeColumns w) q else q);
              q = (case Limit w of None \<Rightarrow> q | Some n \<Rightarrow> SelectQuery_Limit n q);
              q = (case Offset w of None \<Rightarrow> q | Some n \<Rightarrow> SelectQuery_Offset n q);
              q = (case Order w (SortBy w) of
                     Some col \<Rightarrow>
                       (if SortDesc w then SelectQuery_Order (OrderDesc col) q
                        else SelectQuery_Order (OrderAsc col) q)
                   | None \<Rightarrow> q)
          in q))"

text \<open>The identifiers a condition names, groups included.\<close>

fun arg_idents :: "arg \<Rightarrow> string list" where
  "arg_idents (Ident col) = [col]"
| "arg_idents (In v) = []"
| "arg_idents (Val v) = []"

fun item_idents :: "where_item \<Rightarrow> string list" where
  "item_idents (Cond query args) = concat (map arg_idents args)"
| "item_idents (Group sep items) = concat (map item_idents items)"

text \<open>\<^verbatim>\<open>UseWhere\<close> takes the descriptor by value and returns the query of \<^verbatim>\<open>Where\<close>.\<close>

definition UseWhere :: "Where \<Rightarrow> Selector" where
  "UseWhere w = Some (\<lambda>q. snd (Where_Where (Some w) q))"

section \<open>Ambient transactions (tx.go)\<close>

subsection \<open>Errors\<close>

text \<open>
  A Go \<^verbatim>\<open>error\<close> is either a plain error with a message or one made by
  \<^verbatim>\<open>fmt.Errorf\<close> with a \<^verbatim>\<open>%w\<close> verb, which keeps its message and the error it
  wraps. A nil error is \<open>None\<close> of \<^typ>\<open>'a option\<close>.
\<close>

datatype go_error = ErrorNew string | WrapError string go_error

fun Error :: "go_error \<Rightarrow> string" where
  "Error (ErrorNew msg) = msg"
| "Error (WrapError msg inner) = msg"

fun Unwrap :: "go_error \<Rightarrow> go_error option" where
  "Unwrap (ErrorNew msg) = None"
| "Unwrap (WrapError msg inner) = Some inner"

text \<open>\<^verbatim>\<open>errors.Is\<close>: the error itself or any error down its chain of \<^verbatim>\<open>Unwrap\<close>.\<close>

fun errors_Is :: "go_error \<Rightarrow> go_error \<Rightarrow> bool" where
  "errors_Is (ErrorNew msg) target = (ErrorNew msg = target)"
| "errors_Is (WrapError msg inner) target =
     (WrapError msg inner = target \<or> errors_Is inner target)"

text \<open>\<^verbatim>\<open>fmt.Errorf("%w: transaction rollback error: %v", err, rollbackErr)\<close>\<close>

definition Errorf_rollback :: "go_error \<Rightarrow> go_error \<Rightarrow> go_error" where
  "Errorf_rollback err rollbackErr =
     WrapError (Error err @ '': transaction rollback error: '' @ Error rollbackErr) err"

subsection \<open>Contexts\<close>

text \<open>
  A \<^verbatim>\<open>context.Context\<close> is a chain of key/value pairs over the background context,
  the newest pair first; \<^verbatim>\<open>context.WithValue\<close> puts a pair in front and leaves its
  parent as it was. The nil interface value is \<open>None\<close> of \<^verbatim>\<open>Context option\<close>. A value
  stored under a key is a \<^verbatim>\<open>*bun.Tx\<close> (a transaction handle, or the nil pointer) or
  something of another type. A transaction handle is known by its number.
\<close>

datatype ctx_key = TxKey | OtherKey string

datatype ctx_value = TxPointer "nat option" | OtherValue string

type_synonym Context = "(ctx_key \<times> ctx_value) list"

fun Value :: "Context \<Rightarrow> ctx_key \<Rightarrow> ctx_value option" where
  "Value [] key = None"
| "Value ((k, v) # parent) key = (if k = key then Some v else Value parent key)"

definition Background :: Context where
  "Background = []"

definition WithValue :: "Context \<Rightarrow> ctx_key \<Rightarrow> ctx_value \<Rightarrow> Context" where
  "WithValue parent key val = (key, val) # parent"

text \<open>
  \<^verbatim>\<open>tx, ok := ctx.Value(TxKey).(*bun.Tx)\<close>: calling \<^verbatim>\<open>Value\<close> on the nil interface
  panics; the type assertion fails on a missing value and on a value of another type.
\<close>

definition TxFromContext :: "Context option \<Rightarrow> panic_value + nat option" where
  "TxFromContext ctx =
     (case ctx of
        None \<Rightarrow> Inl NilDereference
      | Some c \<Rightarrow>
         (case Value c TxKey of
            Some (TxPointer tx) \<Rightarrow> Inr tx
          | Some (OtherValue x) \<Rightarrow> Inr None
          | None \<Rightarrow> Inr None))"

definition TxToContext :: "Context option \<Rightarrow> nat option \<Rightarrow> Context" where
  "TxToContext ctx tx =
     (let ctx = (case ctx of None \<Rightarrow> Background | Some c \<Rightarrow> c)
      in WithValue ctx TxKey (TxPointer tx))"

subsection \<open>The transaction collaborator\<close>

text \<open>
  What the database has been asked to do is a list of events; \<open>next_tx\<close> numbers the
  next transaction handle. The handle \<^verbatim>\<open>*bun.DB\<close> says, for the state it is called
  in, whether begin, commit and rollback fail. A begin that fails starts nothing; a
  commit or rollback is recorded whether it fails or not.
\<close>

datatype tx_event = Begin nat | Commit nat | Rollback nat

record world =
  events :: "tx_event list"
  next_tx :: nat

record DB =
  begin_error :: "world \<Rightarrow> go_error option"
  commit_error :: "nat \<Rightarrow> world \<Rightarrow> go_error option"
  rollback_error :: "nat \<Rightarrow> world \<Rightarrow> go_error option"

definition BeginTx :: "DB \<Rightarrow> world \<Rightarrow> (go_error + nat) \<times> world" where
  "BeginTx client w =
     (case begin_error client w of
        Some err \<Rightarrow> (Inl err, w)
      | None \<Rightarrow>
         (Inr (next_tx w),
          w\<lparr>events := events w @ [Begin (next_tx w)], next_tx := Suc (next_tx w)\<rparr>))"

definition Tx_Commit :: "DB \<Rightarrow> nat \<Rightarrow> world \<Rightarrow> go_error option \<times> world" where
  "Tx_Commit client tx w = (commit_error client tx w, w\<lparr>events := events w @ [Commit tx]\<rparr>)"

definition Tx_Rollback :: "DB \<Rightarrow> nat \<Rightarrow> world \<Rightarrow> go_error option \<times> world" where
  "Tx_Rollback client tx w = (rollback_error client tx w, w\<lparr>events := events w @ [Rollback tx]\<rparr>)"

subsection \<open>InTx\<close>

text \<open>
  A call either returns an error value (\<open>None\<close> for nil) or panics with a value.
  A unit of work takes its context and the state of the database and gives its outcome
  and the state it leaves. Commit and rollback return an error or nil and do not panic
  themselves; the value that \<^verbatim>\<open>recover\<close> gives for a panic is never nil.
\<close>

datatype outcome = Returned "go_error option" | Panicked panic_value

type_synonym unit_of_work = "Context option \<Rightarrow> world \<Rightarrow> outcome \<times> world"

text \<open>
  The part of \<^verbatim>\<open>InTx\<close> after \<^verbatim>\<open>if !rootTx\<close>, which only the root frame reaches:
  the deferred function rolls back and panics again with the recovered value; a nil
  error commits; any other error rolls back.
\<close>

definition root_frame :: "DB \<Rightarrow> nat \<Rightarrow> outcome \<times> world \<Rightarrow> outcome \<times> world" where
  "root_frame client tx res =
     (case res of
        (Panicked v, w) \<Rightarrow> (case Tx_Rollback client tx w of (_, w') \<Rightarrow> (Panicked v, w'))
      | (Returned None, w) \<Rightarrow>
          (case Tx_Commit client tx w of
             (Some err, w') \<Rightarrow> (Returned (Some err), w')
           | (None, w') \<Rightarrow> (Returned None, w'))
      | (Returned (Some err), w) \<Rightarrow>
          (case Tx_Rollback client tx w of
             (Some rollbackErr, w') \<Rightarrow> (Returned (Some (Errorf_rollback err rollbackErr)), w')
           | (None, w') \<Rightarrow> (Returned (Some err), w')))"

definition InTx :: "Context option \<Rightarrow> DB \<Rightarrow> unit_of_work \<Rightarrow> world \<Rightarrow> outcome \<times> world" where
  "InTx ctx client fn w =
     (case TxFromContext ctx of
        Inl v \<Rightarrow> (Panicked v, w)
      | Inr None \<Rightarrow>
          (case BeginTx client w of
             (Inl err, w') \<Rightarrow> (Returned (Some err), w')
           | (Inr tx, w') \<Rightarrow>
               (let ctxWithTx = TxToContext ctx (Some tx)
                in root_frame client tx (fn (Some ctxWithTx) w')))
      | Inr (Some tx) \<Rightarrow>
          (let ctxWithTx = TxToContext ctx (Some tx)
           in fn (Some ctxWithTx) w))"

text \<open>
  A chain of nested calls, as in the repository's test of a nested transaction: each
  unit of work but the innermost only calls \<^verbatim>\<open>InTx\<close> again with the context it was
  given. \<open>chain_context n tx c\<close> is the context after \<open>n\<close> frames have attached the
  transaction to \<open>c\<close>.
\<close>

fun nested_InTx :: "nat \<Rightarrow> DB \<Rightarrow> unit_of_work \<Rightarrow> unit_of_work" where
  "nested_InTx 0 client body = body"
| "nested_InTx (Suc n) client body = (\<lambda>ctx. InTx ctx client (nested_InTx n client body))"

fun chain_context :: "nat \<Rightarrow> nat \<Rightarrow> Context \<Rightarrow> Context" where
  "chain_context 0 tx c = c"
| "chain_context (Suc n) tx c = chain_context n tx (TxToContext (Some c) (Some tx))"

section \<open>The specification's wording, to compare the source with\<close>

text \<open>
  ``Sequentially applying each non-nil member of the list in order'': the non-nil
  members, and their application one after the other.
\<close>

definition non_nil :: "Selector list \<Rightarrow> (select_query \<Rightarrow> select_query) list" where
  "non_nil selectors = List.map_filter (\<lambda>selector. selector) selectors"

definition apply_in_order ::
  "(select_query \<Rightarrow> select_query) list \<Rightarrow> select_query \<Rightarrow> select_query" where
  "apply_in_order fs q = foldl (\<lambda>q f. f q) q fs"

text \<open>
  The conditions of the apply-filters operation as the specification lists them, each
  kind with the column it names: the id conditions, one bitmask-equality condition per
  flag to include and per flag to exclude, and the inclusive bounds of a time range
  (\<open>>=\<close> for after, \<open><=\<close> for before).
\<close>

definition id_conditions :: "string \<Rightarrow> Where \<Rightarrow> where_item list" where
  "id_conditions col w =
     (if ID w = [] then []
      else [Cond ''?TableAlias.? = ?'' [Ident col, Val (StringVal (ID w))]])
     @ (if IDs w = [] then []
        else [Cond ''?TableAlias.? IN (?)'' [Ident col, In (StringsVal (IDs w))]])
     @ (if NotInIDs w = [] then []
        else [Cond ''?TableAlias.? NOT IN (?)'' [Ident col, In (StringsVal (NotInIDs w))]])"

definition flag_inclusion_conditions :: "string \<Rightarrow> 64 word list \<Rightarrow> where_item list" where
  "flag_inclusion_conditions col flags =
     map (\<lambda>flag. Cond ''?TableAlias.? & ? = ?'' [Ident col, Val (IntVal flag), Val (IntVal flag)]) flags"

definition flag_exclusion_conditions :: "string \<Rightarrow> 64 word list \<Rightarrow> where_item list" where
  "flag_exclusion_conditions col flags =
     map (\<lambda>flag. Cond ''?TableAlias.? & ? = 0'' [Ident col, Val (IntVal flag)]) flags"

definition range_conditions ::
  "string \<Rightarrow> 64 word option \<Rightarrow> 64 word option \<Rightarrow> where_item list" where
  "range_conditions col after before =
     (case after of
        None \<Rightarrow> []
      | Some ms \<Rightarrow> [Cond ''?TableAlias.? >= ?'' [Ident col, Val (UnixMilli ms)]])
     @ (case before of
          None \<Rightarrow> []
        | Some ms \<Rightarrow> [Cond ''?TableAlias.? <= ?'' [Ident col, Val (UnixMilli ms)]])"

text \<open>
  What a call has appended to the conditions of a query: \<open>emitted q q'\<close> are the
  conditions of \<open>q'\<close> after those of \<open>q\<close>, and \<open>adds_only cols q q'\<close> says that \<open>q'\<close>
  keeps the conditions of \<open>q\<close> and that the conditions after them name no identifier
  outside \<open>cols\<close>.
\<close>

definition idents_of :: "where_item list \<Rightarrow> string list" where
  "idents_of items = concat (map item_idents items)"

definition emitted :: "select_query \<Rightarrow> select_query \<Rightarrow> where_item list" where
  "emitted q q' = drop (length (q_where q)) (q_where q')"

definition adds_only :: "string set \<Rightarrow> select_query \<Rightarrow> select_query \<Rightarrow> bool" where
  "adds_only cols q q' =
     (take (length (q_where q)) (q_where q') = q_where q \<and> set (idents_of (emitted q q')) \<subseteq> cols)"

definition default_columns :: "string set" where
  "default_columns = {DefaultIDCol, DefaultFlagsCol, DefaultCreatedAtCol, DefaultUpdatedAtCol}"

section \<open>Concrete inputs\<close>

text \<open>A database on which nothing fails, and one on which every rollback fails.\<close>

definition reliable_db :: DB where
  "reliable_db = \<lparr>begin_error = (\<lambda>w. None), commit_error = (\<lambda>tx w. None),
     rollback_error = (\<lambda>tx w. None)\<rparr>"

definition rollback_failing_db :: DB where
  "rollback_failing_db = \<lparr>begin_error = (\<lambda>w. None), commit_error = (\<lambda>tx w. None),
     rollback_error = (\<lambda>tx w. Some (ErrorNew ''connection lost''))\<rparr>"

definition fresh_world :: world where
  "fresh_world = \<lparr>events = [], next_tx = 0\<rparr>"

text \<open>The units of work of the repository's tests: one returns nil, one an error, one panics.\<close>

definition work_ok :: unit_of_work where
  "work_ok ctx w = (Returned None, w)"

definition work_error :: unit_of_work where
  "work_error ctx w = (Returned (Some (ErrorNew ''test error'')), w)"

definition work_panic :: unit_of_work where
  "work_panic ctx w = (Panicked (PanicValue ''test panic''), w)"

text \<open>A unit of work that compares the context it is given with the one it expects.\<close>

definition expects_context :: "Context \<Rightarrow> unit_of_work" where
  "expects_context c ctx w =
     (if ctx = Some c then (Returned None, w)
      else (Returned (Some (ErrorNew ''another context'')), w))"

text \<open>A context that carries transaction 0, and the context InTx derives from it.\<close>

definition ctx_with_tx0 :: Context where
  "ctx_with_tx0 = [(TxKey, TxPointer (Some 0))]"

definition ctx_derived_tx0 :: Context where
  "ctx_derived_tx0 = [(TxKey, TxPointer (Some 0)), (TxKey, TxPointer (Some 0))]"

text \<open>The zero value of \<^verbatim>\<open>Where\<close>, and the descriptors of the repository's tests.\<close>

definition blank_Where :: Where where
  "blank_Where = \<lparr>ID = [], IDs = [], NotInIDs = [], HasFlags = [], HasNotFlags = [],
     OnlyDeleted = False, WithDeleted = False, Limit = None, Offset = None,
     FlagsCol = [], CreatedAtCol = [], UpdatedAtCol = [],
     CreatedAfter = None, CreatedBefore = None, UpdatedAfter = None, UpdatedBefore = None,
     SelectColumns = [], ExcludeColumns = [], SortBy = 0, SortDesc = False, Order = Map.empty\<rparr>"

definition custom_columns_Where :: Where where
  "custom_columns_Where = blank_Where\<lparr>ID := ''7'', HasFlags := [1], HasNotFlags := [4],
     FlagsCol := ''custom_flags'', CreatedAtCol := ''custom_created'',
     UpdatedAtCol := ''custom_updated'',
     CreatedAfter := Some 1000, CreatedBefore := Some 2000,
     UpdatedAfter := Some 3000, UpdatedBefore := Some 4000\<rparr>"

definition both_deleted_Where :: Where where
  "both_deleted_Where = blank_Where\<lparr>OnlyDeleted := True, WithDeleted := True\<rparr>"

definition sorted_Where :: "64 word \<Rightarrow> bool \<Rightarrow> Where" where
  "sorted_Where key desc = blank_Where\<lparr>SortBy := key, SortDesc := desc, Order := [1 \<mapsto> ''name'']\<rparr>"

definition test_selectors :: "Selector list" where
  "test_selectors = [WhereEqual ''name'' (StringVal ''test''), None, WhereNotNull ''id'']"

section \<open>Properties of the JSONB path expression\<close>

lemma emit_segments_Cons:
  "xs \<noteq> [] \<or> \<not> text \<Longrightarrow>
   emit_segments text (s # xs) = sprintf_segment ''->'' s @ emit_segments text xs"
  by (cases xs) auto

text \<open>
  The loop agrees with the specification's wording when no text is wanted, when every
  segment is empty, and when the last segment of the path is not empty.
\<close>

lemma jsonbPathLoop_spec:
  assumes "n = idx + length path"
    and "\<not> text \<or> filter (\<lambda>s. s \<noteq> []) path = [] \<or> last path \<noteq> []"
  shows "jsonbPathLoop text n idx path expr =
         expr @ emit_segments text (filter (\<lambda>s. s \<noteq> []) path)"
  using assms
proof (induction path arbitrary: idx expr)
  case Nil
  then show ?case by simp
next
  case (Cons s rest)
  show ?case
  proof (cases "rest = []")
    case True
    with Cons.prems show ?thesis by auto
  next
    case False
    have n: "n = Suc idx + length rest" using Cons.prems(1) by simp
    have c: "\<not> text \<or> filter (\<lambda>s. s \<noteq> []) rest = [] \<or> last rest \<noteq> []"
      using Cons.prems(2) False by (auto split: if_splits)
    note IH = Cons.IH [OF n c]
    show ?thesis
    proof (cases "s = []")
      case True
      then show ?thesis using IH by simp
    next
      case nonempty: False
      have idx: "int idx \<noteq> int n - 1" using n False by (cases rest) auto
      have e: "filter (\<lambda>s. s \<noteq> []) rest \<noteq> [] \<or> \<not> text"
      proof (cases "text")
        case True
        with Cons.prems(2) nonempty False have "last rest \<noteq> []" by auto
        moreover have "last rest \<in> set rest" using False by (rule last_in_set)
        ultimately show ?thesis by (auto simp: filter_empty_conv)
      qed simp
      show ?thesis
        using nonempty idx IH emit_segments_Cons [OF e] by simp
    qed
  qed
qed

lemma jsonbPathExpression_agrees_with_spec:
  "\<not> text \<or> filter (\<lambda>s. s \<noteq> []) path = [] \<or> last path \<noteq> [] \<Longrightarrow>
   jsonbPathExpression path text = jsonbPathExpression_spec path text"
  by (simp add: jsonbPathExpression_def jsonbPathExpression_spec_def jsonbPathLoop_spec)

lemma jsonbPathExpression_only_empty_segments:
  "\<forall>s \<in> set path. s = [] \<Longrightarrow> jsonbPathExpression path text = ''?TableAlias.?''"
proof -
  assume "\<forall>s \<in> set path. s = []"
  then have "filter (\<lambda>s. s \<noteq> []) path = []"
    by (simp add: filter_empty_conv)
  then show ?thesis
    using jsonbPathExpression_agrees_with_spec [of "text" path]
    by (simp add: jsonbPathExpression_spec_def)
qed

text \<open>
  C2: with text wanted, the last non-empty segment takes the text operator \<open>->>\<close>.
  On the path \<open>["a", ""]\<close> the source tests the index of the segment against the last
  index of the path, which belongs to the skipped empty segment, so the only operator it
  emits is \<open>->\<close>, where the specification's wording gives \<open>->>\<close>.
\<close>

theorem jsonbPathExpression_trailing_empty_segment:
  "jsonbPathExpression [''a'', []] True = ''?TableAlias.? -> '' @ [apostrophe] @ ''a'' @ [apostrophe]
   \<and> jsonbPathExpression_spec [''a'', []] True =
       ''?TableAlias.? ->> '' @ [apostrophe] @ ''a'' @ [apostrophe]
   \<and> jsonbPathExpression [''a'', []] True \<noteq> jsonbPathExpression_spec [''a'', []] True"
  by (simp add: jsonbPathExpression_def jsonbPathExpression_spec_def sprintf_segment_def
      apostrophe_def)

section \<open>Properties of InTx\<close>

lemma TxFromContext_TxToContext:
  "TxFromContext (Some (TxToContext ctx (Some tx))) = Inr (Some tx)"
  by (simp add: TxFromContext_def TxToContext_def WithValue_def)

lemma InTx_nested_frame:
  "TxFromContext ctx = Inr (Some tx) \<Longrightarrow>
   InTx ctx client fn w = fn (Some (TxToContext ctx (Some tx))) w"
  by (simp add: InTx_def)

lemma InTx_root_frame:
  "TxFromContext ctx = Inr None \<Longrightarrow> BeginTx client w = (Inr tx, w1) \<Longrightarrow>
   InTx ctx client fn w = root_frame client tx (fn (Some (TxToContext ctx (Some tx))) w1)"
  by (simp add: InTx_def)

lemma BeginTx_events:
  "BeginTx client w = (Inr tx, w1) \<Longrightarrow> events w1 = events w @ [Begin tx]"
  by (auto simp: BeginTx_def split: option.splits)

lemma chain_context_tx:
  "TxFromContext (Some c) = Inr (Some tx) \<Longrightarrow>
   TxFromContext (Some (chain_context n tx c)) = Inr (Some tx)"
  by (induction n arbitrary: c) (simp_all add: TxFromContext_TxToContext)

lemma chain_context_add:
  "chain_context a tx (chain_context b tx c) = chain_context (a + b) tx c"
  by (induction b arbitrary: c) simp_all

text \<open>A frame that finds the transaction hands the call through, however deep the chain.\<close>

lemma nested_InTx_inner:
  "TxFromContext (Some c) = Inr (Some tx) \<Longrightarrow>
   nested_InTx n client body (Some c) w = body (Some (chain_context n tx c)) w"
proof (induction n arbitrary: c body)
  case 0
  show ?case by simp
next
  case (Suc n)
  have "nested_InTx (Suc n) client body (Some c) w =
        nested_InTx n client body (Some (TxToContext (Some c) (Some tx))) w"
    using Suc.prems by (simp add: InTx_nested_frame)
  also have "\<dots> = body (Some (chain_context n tx (TxToContext (Some c) (Some tx)))) w"
    by (rule Suc.IH) (rule TxFromContext_TxToContext)
  finally show ?case by simp
qed

lemma root_frame_events:
  "events (snd (root_frame client tx (r, w))) =
   events w @ [if r = Returned None then Commit tx else Rollback tx]"
  by (auto simp: root_frame_def Tx_Commit_def Tx_Rollback_def
      split: outcome.splits option.splits prod.splits)

lemma errors_Is_refl: "errors_Is e e"
  by (cases e) simp_all

text \<open>
  C1: a chain of \<open>n + 1\<close> nested calls of InTx starts from a context \<open>c\<close> that carries
  no transaction, and the root's begin succeeds with transaction \<open>tx\<close>. Then over the
  whole chain the events recorded are the one begin, whatever the innermost unit of work
  records itself (\<open>es\<close>), and one commit or rollback of \<open>tx\<close>. Every nested frame is
  called with a context that carries \<open>tx\<close> and returns the outcome and the state of the
  innermost unit of work as they are: it begins, commits and rolls back nothing.
\<close>

theorem InTx_chain_one_begin_one_end:
  assumes root: "TxFromContext (Some c) = Inr None"
    and started: "BeginTx client w = (Inr tx, w1)"
    and body: "body (Some (chain_context (Suc n) tx c)) w1 = (r, w2)"
    and es: "events w2 = events w1 @ es"
  shows "events (snd (nested_InTx (Suc n) client body (Some c) w)) =
           events w @ [Begin tx] @ es @ [if r = Returned None then Commit tx else Rollback tx]
       \<and> (\<forall>k\<le>n. TxFromContext (Some (chain_context (Suc k) tx c)) = Inr (Some tx)
              \<and> nested_InTx (n - k) client body (Some (chain_context (Suc k) tx c)) w1 = (r, w2))"
proof -
  let ?c1 = "TxToContext (Some c) (Some tx)"
  have tx1: "TxFromContext (Some ?c1) = Inr (Some tx)"
    by (rule TxFromContext_TxToContext)
  have inner: "nested_InTx m client body (Some (chain_context k tx ?c1)) w1 =
               body (Some (chain_context (m + k) tx ?c1)) w1" for m k
    using nested_InTx_inner [OF chain_context_tx [OF tx1]] by (simp add: chain_context_add)
  have "nested_InTx (Suc n) client body (Some c) w =
        root_frame client tx (nested_InTx n client body (Some ?c1) w1)"
    using root started by (simp add: InTx_root_frame)
  also have "nested_InTx n client body (Some ?c1) w1 = (r, w2)"
    using inner [of n 0] body by simp
  finally have "events (snd (nested_InTx (Suc n) client body (Some c) w)) =
      events w2 @ [if r = Returned None then Commit tx else Rollback tx]"
    by (simp only: root_frame_events)
  moreover have "events w2 = events w @ [Begin tx] @ es"
    using es BeginTx_events [OF started] by simp
  moreover have "TxFromContext (Some (chain_context (Suc k) tx c)) = Inr (Some tx)" for k
    using chain_context_tx [OF tx1, of k] by simp
  moreover have "nested_InTx (n - k) client body (Some (chain_context (Suc k) tx c)) w1 = (r, w2)"
    if "k \<le> n" for k
    using inner [of "n - k" k] body that by simp
  ultimately show ?thesis by simp
qed

theorem InTx_chain_one_begin_one_end_witness:
  "events (snd (nested_InTx 2 reliable_db work_ok (Some Background) fresh_world)) =
     [Begin 0, Commit 0]"
proof -
  have root: "TxFromContext (Some Background) = Inr None"
    by (simp add: TxFromContext_def Background_def)
  have started: "BeginTx reliable_db fresh_world =
      (Inr 0, \<lparr>events = [Begin 0], next_tx = Suc 0\<rparr>)"
    by (simp add: BeginTx_def reliable_db_def fresh_world_def)
  have body: "work_ok (Some (chain_context (Suc (Suc 0)) 0 Background))
      \<lparr>events = [Begin 0], next_tx = Suc 0\<rparr> =
      (Returned None, \<lparr>events = [Begin 0], next_tx = Suc 0\<rparr>)"
    by (simp add: work_ok_def)
  have es: "events \<lparr>events = [Begin 0], next_tx = Suc 0\<rparr> =
      events \<lparr>events = [Begin 0], next_tx = Suc 0\<rparr> @ []"
    by simp
  show ?thesis
    using InTx_chain_one_begin_one_end
      [where body = work_ok and n = "Suc 0", OF root started body es]
    by (simp add: fresh_world_def numeral_2_eq_2)
qed

text \<open>
  C3: the unit of work of a root frame panics. Commit and rollback are taken to return
  an error and not to panic themselves, and a recovered panic value is never nil, as
  in the Go release the repository names. Then the call panics with the very
  value of the unit of work, and the one event added after the unit of work is the
  rollback of the transaction begun, whether the rollback fails or not.
\<close>

theorem InTx_root_panic_rolls_back_and_repanics:
  assumes root: "TxFromContext ctx = Inr None"
    and started: "BeginTx client w = (Inr tx, w1)"
    and panics: "fn (Some (TxToContext ctx (Some tx))) w1 = (Panicked v, w2)"
  shows "fst (InTx ctx client fn w) = Panicked v
       \<and> events (snd (InTx ctx client fn w)) = events w2 @ [Rollback tx]"
  using assms
  by (simp add: InTx_root_frame root_frame_def Tx_Rollback_def)

theorem InTx_root_panic_witness:
  "fst (InTx (Some Background) rollback_failing_db work_panic fresh_world) =
     Panicked (PanicValue ''test panic'')
   \<and> events (snd (InTx (Some Background) rollback_failing_db work_panic fresh_world)) =
     [Begin 0, Rollback 0]"
proof -
  have root: "TxFromContext (Some Background) = Inr None"
    by (simp add: TxFromContext_def Background_def)
  have started: "BeginTx rollback_failing_db fresh_world =
      (Inr 0, \<lparr>events = [Begin 0], next_tx = Suc 0\<rparr>)"
    by (simp add: BeginTx_def rollback_failing_db_def fresh_world_def)
  have panics: "work_panic (Some (TxToContext (Some Background) (Some 0)))
      \<lparr>events = [Begin 0], next_tx = Suc 0\<rparr> =
      (Panicked (PanicValue ''test panic''), \<lparr>events = [Begin 0], next_tx = Suc 0\<rparr>)"
    by (simp add: work_panic_def)
  show ?thesis
    using InTx_root_panic_rolls_back_and_repanics
      [where fn = work_panic, OF root started panics]
    by simp
qed

text \<open>
  C4: the unit of work of a root frame returns an error \<open>err\<close>. The one event added
  after the unit of work is the rollback. When the rollback succeeds the call
  returns \<open>err\<close> itself; when it fails with \<open>rollbackErr\<close> the call returns one error
  that wraps \<open>err\<close>: unwrapping it gives \<open>err\<close>, \<^verbatim>\<open>errors.Is\<close> finds \<open>err\<close> in it,
  and its message holds the messages of both.
\<close>

theorem InTx_root_error_rollback:
  assumes root: "TxFromContext ctx = Inr None"
    and started: "BeginTx client w = (Inr tx, w1)"
    and fails: "fn (Some (TxToContext ctx (Some tx))) w1 = (Returned (Some err), w2)"
  shows "events (snd (InTx ctx client fn w)) = events w2 @ [Rollback tx]
       \<and> fst (InTx ctx client fn w) =
           Returned (Some (case rollback_error client tx w2 of
                             None \<Rightarrow> err
                           | Some rollbackErr \<Rightarrow> Errorf_rollback err rollbackErr))
       \<and> (\<forall>rollbackErr.
             Unwrap (Errorf_rollback err rollbackErr) = Some err
           \<and> errors_Is (Errorf_rollback err rollbackErr) err
           \<and> Error (Errorf_rollback err rollbackErr) =
               Error err @ '': transaction rollback error: '' @ Error rollbackErr)"
  using assms
  by (simp add: InTx_root_frame root_frame_def Tx_Rollback_def Errorf_rollback_def errors_Is_refl
      split: option.splits)

theorem InTx_root_error_rollback_witness:
  "fst (InTx (Some Background) reliable_db work_error fresh_world) =
     Returned (Some (ErrorNew ''test error''))
   \<and> fst (InTx (Some Background) rollback_failing_db work_error fresh_world) =
     Returned (Some (WrapError ''test error: transaction rollback error: connection lost''
                       (ErrorNew ''test error'')))
   \<and> events (snd (InTx (Some Background) rollback_failing_db work_error fresh_world)) =
     [Begin 0, Rollback 0]"
proof -
  have root: "TxFromContext (Some Background) = Inr None"
    by (simp add: TxFromContext_def Background_def)
  have started: "BeginTx reliable_db fresh_world =
      (Inr 0, \<lparr>events = [Begin 0], next_tx = Suc 0\<rparr>)"
    by (simp add: BeginTx_def reliable_db_def fresh_world_def)
  have started': "BeginTx rollback_failing_db fresh_world =
      (Inr 0, \<lparr>events = [Begin 0], next_tx = Suc 0\<rparr>)"
    by (simp add: BeginTx_def rollback_failing_db_def fresh_world_def)
  have fails: "work_error (Some (TxToContext (Some Background) (Some 0)))
      \<lparr>events = [Begin 0], next_tx = Suc 0\<rparr> =
      (Returned (Some (ErrorNew ''test error'')), \<lparr>events = [Begin 0], next_tx = Suc 0\<rparr>)"
    by (simp add: work_error_def)
  show ?thesis
    using InTx_root_error_rollback [where fn = work_error, OF root started fails]
      InTx_root_error_rollback [where fn = work_error, OF root started' fails]
    by (simp add: reliable_db_def rollback_failing_db_def Errorf_rollback_def)
qed

text \<open>
  C6, as stated: when the context carries a transaction, the unit of work runs with
  that same context, so the call is the unit of work called on the context given.
  It is not: the source calls \<^verbatim>\<open>TxToContext\<close> before it tests \<^verbatim>\<open>rootTx\<close>, and a unit
  of work that compares its context with the one given to InTx sees another one.
\<close>

theorem InTx_nested_same_context_counterexample:
  "TxFromContext (Some ctx_with_tx0) = Inr (Some 0)
   \<and> InTx (Some ctx_with_tx0) reliable_db (expects_context ctx_with_tx0) fresh_world
     \<noteq> expects_context ctx_with_tx0 (Some ctx_with_tx0) fresh_world"
  by (simp add: TxFromContext_def InTx_def TxToContext_def WithValue_def expects_context_def
      ctx_with_tx0_def)

lemma Value_TxToContext:
  "TxFromContext (Some c) = Inr (Some tx) \<Longrightarrow>
   Value (TxToContext (Some c) (Some tx)) key = Value c key"
  by (auto simp: TxFromContext_def TxToContext_def WithValue_def
      split: option.splits ctx_value.splits)

text \<open>
  C6, amended: when the context \<open>c\<close> carries a transaction \<open>tx\<close>, the call is the unit
  of work called, in the state given, on the context that \<^verbatim>\<open>TxToContext\<close> derives
  from \<open>c\<close>: a new context, which carries the same \<open>tx\<close> and gives every key the value
  \<open>c\<close> gives it. The frame adds no begin, commit or rollback of its own.
\<close>

theorem InTx_nested_runs_in_derived_context:
  assumes "TxFromContext (Some c) = Inr (Some tx)"
  shows "InTx (Some c) client fn w = fn (Some (TxToContext (Some c) (Some tx))) w
       \<and> TxToContext (Some c) (Some tx) = WithValue c TxKey (TxPointer (Some tx))
       \<and> TxToContext (Some c) (Some tx) \<noteq> c
       \<and> TxFromContext (Some (TxToContext (Some c) (Some tx))) = Inr (Some tx)
       \<and> (\<forall>key. Value (TxToContext (Some c) (Some tx)) key = Value c key)"
  using assms
  by (simp add: InTx_nested_frame TxFromContext_TxToContext Value_TxToContext)
     (simp add: TxToContext_def WithValue_def)

theorem InTx_nested_runs_in_derived_context_witness:
  "InTx (Some ctx_with_tx0) reliable_db (expects_context ctx_derived_tx0) fresh_world =
     (Returned None, fresh_world)"
proof -
  have nested: "TxFromContext (Some ctx_with_tx0) = Inr (Some 0)"
    by (simp add: TxFromContext_def ctx_with_tx0_def)
  show ?thesis
    using InTx_nested_runs_in_derived_context
      [OF nested, of reliable_db "expects_context ctx_derived_tx0" fresh_world]
    by (simp add: expects_context_def WithValue_def ctx_with_tx0_def ctx_derived_tx0_def)
qed

section \<open>Properties of the combinators\<close>

lemma Apply_closure_in_order:
  "Apply_closure selectors q = apply_in_order (non_nil selectors) q"
  unfolding apply_in_order_def non_nil_def
  by (induction selectors arbitrary: q) (simp_all add: List.map_filter_simps split: option.split)

text \<open>
  C7: the Selector that Apply returns is not nil, and called on a query it gives what
  applying the non-nil members one after the other, in the order of the arguments,
  gives; ApplyIf with a false condition is the nil Selector, with a true one it is
  Apply.
\<close>

theorem Apply_applies_non_nil_in_order:
  "call_Selector (Apply P) q = Inr (apply_in_order (non_nil P) q)
   \<and> ApplyIf False P = None
   \<and> ApplyIf True P = Apply P"
proof -
  have "call_Selector (Apply P) q = Inr (Apply_closure P q)"
    by (simp add: Apply_def call_Selector_def)
  moreover have "Apply_closure P q = apply_in_order (non_nil P) q"
    by (rule Apply_closure_in_order)
  moreover have "ApplyIf False P = None" and "ApplyIf True P = Apply P"
    by (simp_all add: ApplyIf_def)
  ultimately show ?thesis by simp
qed

theorem Apply_applies_non_nil_in_order_witness:
  "call_Selector (Apply test_selectors) NewSelect =
     Inr (NewSelect\<lparr>q_where :=
       [Cond ''?TableAlias.? = ?'' [Ident ''name'', Val (StringVal ''test'')],
        Cond ''?TableAlias.? is not null'' [Ident ''id'']]\<rparr>)
   \<and> ApplyIf False test_selectors = None
   \<and> ApplyIf True test_selectors = Apply test_selectors"
  using Apply_applies_non_nil_in_order [of test_selectors NewSelect]
  by (simp add: test_selectors_def non_nil_def apply_in_order_def List.map_filter_simps
      WhereEqual_def WhereNotNull_def SelectQuery_Where_def NewSelect_def)

lemma Map_from_map: "Map_from i xs (\<lambda>x _. g x) = map g xs"
  by (induction xs arbitrary: i) simp_all

text \<open>
  C8: Or of a list is AndGroup of the list in which each member, in the original order,
  is wrapped in an OrGroup of its own; the two Selectors are equal, and so is what they
  give on any query.
\<close>

theorem Or_is_AndGroup_of_OrGroups:
  "Or P = AndGroup (map (\<lambda>s. OrGroup [s]) P)
   \<and> call_Selector (Or P) q = call_Selector (AndGroup (map (\<lambda>s. OrGroup [s]) P)) q"
proof -
  have "Map P (\<lambda>s _. OrGroup [s]) = map (\<lambda>s. OrGroup [s]) P"
    unfolding Map_def by (rule Map_from_map)
  then have "Or P = AndGroup (map (\<lambda>s. OrGroup [s]) P)"
    by (simp add: Or_def)
  then show ?thesis by simp
qed

theorem Or_is_AndGroup_of_OrGroups_witness:
  "call_Selector (Or test_selectors) NewSelect =
     Inr (NewSelect\<lparr>q_where :=
       [Group '' AND ''
          [Group '' OR '' [Cond ''?TableAlias.? = ?'' [Ident ''name'', Val (StringVal ''test'')]],
           Group '' OR '' [Cond ''?TableAlias.? is not null'' [Ident ''id'']]]]\<rparr>)"
  using Or_is_AndGroup_of_OrGroups [of test_selectors NewSelect]
  by (simp add: test_selectors_def AndGroup_def OrGroup_def call_Selector_def
      SelectQuery_WhereGroup_def Let_def WhereEqual_def WhereNotNull_def SelectQuery_Where_def
      NewSelect_def)

section \<open>Properties of the filter descriptor\<close>

lemma q_soft_delete_Where [simp]:
  "q_soft_delete (SelectQuery_Where t args q) = q_soft_delete q"
  by (simp add: SelectQuery_Where_def)

lemma q_soft_delete_HasFlags_loop [simp]:
  "q_soft_delete (HasFlags_loop flags q) = q_soft_delete q"
  by (induction flags arbitrary: q) simp_all

lemma q_soft_delete_HasNotFlags_loop [simp]:
  "q_soft_delete (HasNotFlags_loop flags q) = q_soft_delete q"
  by (induction flags arbitrary: q) simp_all

text \<open>
  The body of \<open>emit_conditions\<close> is a chain of bindings; a property is carried along
  it one binding at a time.
\<close>

lemma soft_delete_Let:
  "q_soft_delete s = v \<Longrightarrow> (\<And>x. q_soft_delete x = v \<Longrightarrow> q_soft_delete (g x) = v') \<Longrightarrow>
   q_soft_delete (Let s g) = v'"
  by simp

lemma emit_conditions_soft_delete:
  "q_soft_delete (emit_conditions w q) =
   q_soft_delete q @ (if OnlyDeleted w then [WhereDeleted]
                      else if WithDeleted w then [WhereAllWithDeleted] else [])"
  unfolding emit_conditions_def
  apply (rule soft_delete_Let [where v = "q_soft_delete q"], simp)
  apply (rule soft_delete_Let [where v = "q_soft_delete q"], simp)
  apply (rule soft_delete_Let [where v = "q_soft_delete q"], simp)
  apply (rule soft_delete_Let [where v = "q_soft_delete q"], simp)
  apply (rule soft_delete_Let [where v = "q_soft_delete q"], simp)
  apply (rule soft_delete_Let [where v = "q_soft_delete q @ (if OnlyDeleted w then [WhereDeleted]
                      else if WithDeleted w then [WhereAllWithDeleted] else [])"])
   apply (simp add: SelectQuery_WhereDeleted_def SelectQuery_WhereAllWithDeleted_def)
  apply (rule soft_delete_Let, simp split: option.split)
  apply (rule soft_delete_Let, simp split: option.split)
  apply (rule soft_delete_Let, simp split: option.split)
  apply (simp split: option.split)
  done

lemma emit_conditions_overrides:
  "emit_conditions (w\<lparr>FlagsCol := a, CreatedAtCol := b, UpdatedAtCol := c\<rparr>) q = emit_conditions w q"
  by (simp add: emit_conditions_def cong: if_cong split del: if_split)

lemma inject_defaults_updates:
  "inject_defaults w =
   w\<lparr>FlagsCol := (if FlagsCol w = [] then DefaultFlagsCol else FlagsCol w),
     CreatedAtCol := (if CreatedAtCol w = [] then DefaultCreatedAtCol else CreatedAtCol w),
     UpdatedAtCol := (if UpdatedAtCol w = [] then DefaultUpdatedAtCol else UpdatedAtCol w)\<rparr>"
  by (simp add: inject_defaults_def Let_def)

lemma emit_conditions_inject_defaults:
  "emit_conditions (inject_defaults w) q = emit_conditions w q"
  by (simp only: inject_defaults_updates emit_conditions_overrides)

lemma Where_Where_query: "snd (Where_Where (Some w) q) = emit_conditions w q"
  by (simp add: Where_Where_def Let_def emit_conditions_inject_defaults)

lemma Where_Where_descriptor: "fst (Where_Where (Some w) q) = Some (inject_defaults w)"
  by (simp add: Where_Where_def Let_def)

lemma inject_defaults_fields:
  "FlagsCol (inject_defaults w) = (if FlagsCol w = [] then DefaultFlagsCol else FlagsCol w)"
  "CreatedAtCol (inject_defaults w) =
     (if CreatedAtCol w = [] then DefaultCreatedAtCol else CreatedAtCol w)"
  "UpdatedAtCol (inject_defaults w) =
     (if UpdatedAtCol w = [] then DefaultUpdatedAtCol else UpdatedAtCol w)"
  by (simp_all add: inject_defaults_updates)

lemma adds_only_iff:
  "adds_only cols q q' \<longleftrightarrow> (\<exists>e. q_where q' = q_where q @ e \<and> set (idents_of e) \<subseteq> cols)"
proof
  assume "adds_only cols q q'"
  then have t: "take (length (q_where q)) (q_where q') = q_where q"
    and i: "set (idents_of (emitted q q')) \<subseteq> cols"
    by (simp_all add: adds_only_def)
  have "q_where q' = q_where q @ emitted q q'"
    unfolding emitted_def using t by (metis append_take_drop_id)
  with i show "\<exists>e. q_where q' = q_where q @ e \<and> set (idents_of e) \<subseteq> cols" by blast
next
  assume "\<exists>e. q_where q' = q_where q @ e \<and> set (idents_of e) \<subseteq> cols"
  then show "adds_only cols q q'" by (auto simp: adds_only_def emitted_def)
qed

lemma adds_only_refl: "adds_only cols q q"
  by (simp add: adds_only_iff idents_of_def)

lemma adds_only_Where:
  "adds_only cols q x \<Longrightarrow> set (concat (map arg_idents args)) \<subseteq> cols \<Longrightarrow>
   adds_only cols q (SelectQuery_Where t args x)"
  by (auto simp: adds_only_iff SelectQuery_Where_def idents_of_def)

lemma adds_only_HasFlags_loop:
  "adds_only cols q x \<Longrightarrow> DefaultFlagsCol \<in> cols \<Longrightarrow> adds_only cols q (HasFlags_loop flags x)"
  by (induction flags arbitrary: x) (simp_all add: adds_only_Where)

lemma adds_only_HasNotFlags_loop:
  "adds_only cols q x \<Longrightarrow> DefaultFlagsCol \<in> cols \<Longrightarrow> adds_only cols q (HasNotFlags_loop flags x)"
  by (induction flags arbitrary: x) (simp_all add: adds_only_Where)

lemma adds_only_soft_delete:
  "adds_only cols q x \<Longrightarrow> adds_only cols q (SelectQuery_WhereDeleted x)"
  "adds_only cols q x \<Longrightarrow> adds_only cols q (SelectQuery_WhereAllWithDeleted x)"
  by (simp_all add: adds_only_def emitted_def SelectQuery_WhereDeleted_def
      SelectQuery_WhereAllWithDeleted_def)

lemma adds_only_Let:
  "adds_only cols q s \<Longrightarrow> (\<And>x. adds_only cols q x \<Longrightarrow> adds_only cols q (g x)) \<Longrightarrow>
   adds_only cols q (Let s g)"
  by simp

lemma emit_conditions_adds_only:
  "adds_only default_columns q (emit_conditions w q)"
  unfolding emit_conditions_def
  apply (rule adds_only_Let, simp add: adds_only_refl adds_only_Where default_columns_def)
  apply (rule adds_only_Let, simp add: adds_only_Where default_columns_def)
  apply (rule adds_only_Let, simp add: adds_only_Where default_columns_def)
  apply (rule adds_only_Let, simp add: adds_only_HasFlags_loop default_columns_def)
  apply (rule adds_only_Let, simp add: adds_only_HasNotFlags_loop default_columns_def)
  apply (rule adds_only_Let, simp add: adds_only_soft_delete)
  apply (rule adds_only_Let, simp add: adds_only_Where default_columns_def split: option.split)
  apply (rule adds_only_Let, simp add: adds_only_Where default_columns_def split: option.split)
  apply (rule adds_only_Let, simp add: adds_only_Where default_columns_def split: option.split)
  apply (simp add: adds_only_Where default_columns_def split: option.split)
  done

lemma q_where_HasFlags_loop:
  "q_where (HasFlags_loop flags x) = q_where x @ flag_inclusion_conditions DefaultFlagsCol flags"
  by (induction flags arbitrary: x)
     (simp_all add: flag_inclusion_conditions_def SelectQuery_Where_def)

lemma q_where_HasNotFlags_loop:
  "q_where (HasNotFlags_loop flags x) = q_where x @ flag_exclusion_conditions DefaultFlagsCol flags"
  by (induction flags arbitrary: x)
     (simp_all add: flag_exclusion_conditions_def SelectQuery_Where_def)

lemma q_where_Let:
  assumes "q_where s = q_where q @ a"
    and "\<And>y. q_where (g y) = q_where y @ b"
  shows "q_where (Let s g) = q_where q @ a @ b"
  using assms by simp

text \<open>
  What each binding of \<open>emit_conditions\<close> appends, in the order of the source; the
  soft-delete step appends no condition.
\<close>

lemma emit_conditions_q_where:
  "q_where (emit_conditions w q) =
   q_where q
   @ (if ID w = [] then []
      else [Cond ''?TableAlias.? = ?'' [Ident DefaultIDCol, Val (StringVal (ID w))]])
   @ (if IDs w = [] then []
      else [Cond ''?TableAlias.? IN (?)'' [Ident DefaultIDCol, In (StringsVal (IDs w))]])
   @ (if NotInIDs w = [] then []
      else [Cond ''?TableAlias.? NOT IN (?)'' [Ident DefaultIDCol, In (StringsVal (NotInIDs w))]])
   @ flag_inclusion_conditions DefaultFlagsCol (HasFlags w)
   @ flag_exclusion_conditions DefaultFlagsCol (HasNotFlags w)
   @ []
   @ (case CreatedAfter w of None \<Rightarrow> []
      | Some ms \<Rightarrow> [Cond ''?TableAlias.? >= ?'' [Ident DefaultCreatedAtCol, Val (UnixMilli ms)]])
   @ (case CreatedBefore w of None \<Rightarrow> []
      | Some ms \<Rightarrow> [Cond ''?TableAlias.? <= ?'' [Ident DefaultCreatedAtCol, Val (UnixMilli ms)]])
   @ (case UpdatedAfter w of None \<Rightarrow> []
      | Some ms \<Rightarrow> [Cond ''?TableAlias.? >= ?'' [Ident DefaultUpdatedAtCol, Val (UnixMilli ms)]])
   @ (case UpdatedBefore w of None \<Rightarrow> []
      | Some ms \<Rightarrow> [Cond ''?TableAlias.? <= ?'' [Ident DefaultUpdatedAtCol, Val (UnixMilli ms)]])"
  unfolding emit_conditions_def
  apply (rule q_where_Let, simp add: SelectQuery_Where_def)
  apply (rule q_where_Let, simp add: SelectQuery_Where_def)
  apply (rule q_where_Let, simp add: SelectQuery_Where_def)
  apply (rule q_where_Let, simp add: q_where_HasFlags_loop)
  apply (rule q_where_Let, simp add: q_where_HasNotFlags_loop)
  apply (rule q_where_Let, simp add: SelectQuery_WhereDeleted_def SelectQuery_WhereAllWithDeleted_def)
  apply (rule q_where_Let, simp add: SelectQuery_Where_def split: option.split)
  apply (rule q_where_Let, simp add: SelectQuery_Where_def split: option.split)
  apply (rule q_where_Let, simp add: SelectQuery_Where_def split: option.split)
  apply (simp add: SelectQuery_Where_def split: option.split)
  done

lemma emit_conditions_conditions:
  "q_where (emit_conditions w q) =
   q_where q @ id_conditions DefaultIDCol w
   @ flag_inclusion_conditions DefaultFlagsCol (HasFlags w)
   @ flag_exclusion_conditions DefaultFlagsCol (HasNotFlags w)
   @ range_conditions DefaultCreatedAtCol (CreatedAfter w) (CreatedBefore w)
   @ range_conditions DefaultUpdatedAtCol (UpdatedAfter w) (UpdatedBefore w)"
  by (simp only: emit_conditions_q_where id_conditions_def range_conditions_def append_assoc
      append_Nil)

text \<open>
  C5: the conditions that Where appends are, in this order, the id conditions on \<open>id\<close>,
  one condition on \<open>flags\<close> per flag to include, one on \<open>flags\<close> per flag to exclude,
  the created range on \<open>created_at\<close> and the updated range on \<open>updated_at\<close>, whatever
  the descriptor's FlagsCol, CreatedAtCol and UpdatedAtCol hold. So the query it gives
  is the query it gives for the same descriptor with the three overrides blank, and the
  conditions appended name no identifier other than these four. The descriptor it leaves
  holds the defaults where the overrides were blank, the overrides where they were not.
\<close>

theorem Where_ignores_column_overrides:
  "q_where (snd (Where_Where (Some w) q)) =
     q_where q @ id_conditions ''id'' w
     @ flag_inclusion_conditions ''flags'' (HasFlags w)
     @ flag_exclusion_conditions ''flags'' (HasNotFlags w)
     @ range_conditions ''created_at'' (CreatedAfter w) (CreatedBefore w)
     @ range_conditions ''updated_at'' (UpdatedAfter w) (UpdatedBefore w)
   \<and> snd (Where_Where (Some w) q) =
     snd (Where_Where (Some (w\<lparr>FlagsCol := [], CreatedAtCol := [], UpdatedAtCol := []\<rparr>)) q)
   \<and> adds_only {''id'', ''flags'', ''created_at'', ''updated_at''} q (snd (Where_Where (Some w) q))
   \<and> map_option FlagsCol (fst (Where_Where (Some w) q)) =
       Some (if FlagsCol w = [] then ''flags'' else FlagsCol w)
   \<and> map_option CreatedAtCol (fst (Where_Where (Some w) q)) =
       Some (if CreatedAtCol w = [] then ''created_at'' else CreatedAtCol w)
   \<and> map_option UpdatedAtCol (fst (Where_Where (Some w) q)) =
       Some (if UpdatedAtCol w = [] then ''updated_at'' else UpdatedAtCol w)"
proof -
  have exact: "q_where (emit_conditions w q) =
     q_where q @ id_conditions ''id'' w
     @ flag_inclusion_conditions ''flags'' (HasFlags w)
     @ flag_exclusion_conditions ''flags'' (HasNotFlags w)
     @ range_conditions ''created_at'' (CreatedAfter w) (CreatedBefore w)
     @ range_conditions ''updated_at'' (UpdatedAfter w) (UpdatedBefore w)"
    using emit_conditions_conditions [of w q]
    by (simp only: DefaultIDCol_def DefaultFlagsCol_def DefaultCreatedAtCol_def
        DefaultUpdatedAtCol_def)
  have named: "adds_only {''id'', ''flags'', ''created_at'', ''updated_at''} q (emit_conditions w q)"
    using emit_conditions_adds_only [of q w]
    by (simp add: default_columns_def DefaultIDCol_def DefaultFlagsCol_def
        DefaultCreatedAtCol_def DefaultUpdatedAtCol_def)
  have query: "snd (Where_Where (Some w) q) = emit_conditions w q"
    and blank: "snd (Where_Where (Some (w\<lparr>FlagsCol := [], CreatedAtCol := [],
        UpdatedAtCol := []\<rparr>)) q) = emit_conditions w q"
    by (simp_all only: Where_Where_query emit_conditions_overrides)
  have descriptor:
    "map_option FlagsCol (fst (Where_Where (Some w) q)) =
       Some (if FlagsCol w = [] then ''flags'' else FlagsCol w)"
    "map_option CreatedAtCol (fst (Where_Where (Some w) q)) =
       Some (if CreatedAtCol w = [] then ''created_at'' else CreatedAtCol w)"
    "map_option UpdatedAtCol (fst (Where_Where (Some w) q)) =
       Some (if UpdatedAtCol w = [] then ''updated_at'' else UpdatedAtCol w)"
    by (simp_all add: Where_Where_descriptor inject_defaults_fields DefaultFlagsCol_def
        DefaultCreatedAtCol_def DefaultUpdatedAtCol_def)
  show ?thesis
    unfolding query blank
    using exact named descriptor by (intro conjI) simp_all
qed

theorem Where_ignores_column_overrides_witness:
  "q_where (snd (Where_Where (Some custom_columns_Where) NewSelect)) =
     [Cond ''?TableAlias.? = ?'' [Ident ''id'', Val (StringVal ''7'')],
      Cond ''?TableAlias.? & ? = ?'' [Ident ''flags'', Val (IntVal 1), Val (IntVal 1)],
      Cond ''?TableAlias.? & ? = 0'' [Ident ''flags'', Val (IntVal 4)],
      Cond ''?TableAlias.? >= ?'' [Ident ''created_at'', Val (UnixMilli 1000)],
      Cond ''?TableAlias.? <= ?'' [Ident ''created_at'', Val (UnixMilli 2000)],
      Cond ''?TableAlias.? >= ?'' [Ident ''updated_at'', Val (UnixMilli 3000)],
      Cond ''?TableAlias.? <= ?'' [Ident ''updated_at'', Val (UnixMilli 4000)]]
   \<and> map_option FlagsCol (fst (Where_Where (Some custom_columns_Where) NewSelect)) =
       Some ''custom_flags''
   \<and> map_option CreatedAtCol (fst (Where_Where (Some custom_columns_Where) NewSelect)) =
       Some ''custom_created''
   \<and> map_option UpdatedAtCol (fst (Where_Where (Some custom_columns_Where) NewSelect)) =
       Some ''custom_updated''"
proof -
  note at_custom = Where_ignores_column_overrides [of custom_columns_Where NewSelect]
  have conditions: "q_where (snd (Where_Where (Some custom_columns_Where) NewSelect)) =
     [Cond ''?TableAlias.? = ?'' [Ident ''id'', Val (StringVal ''7'')],
      Cond ''?TableAlias.? & ? = ?'' [Ident ''flags'', Val (IntVal 1), Val (IntVal 1)],
      Cond ''?TableAlias.? & ? = 0'' [Ident ''flags'', Val (IntVal 4)],
      Cond ''?TableAlias.? >= ?'' [Ident ''created_at'', Val (UnixMilli 1000)],
      Cond ''?TableAlias.? <= ?'' [Ident ''created_at'', Val (UnixMilli 2000)],
      Cond ''?TableAlias.? >= ?'' [Ident ''updated_at'', Val (UnixMilli 3000)],
      Cond ''?TableAlias.? <= ?'' [Ident ''updated_at'', Val (UnixMilli 4000)]]"
    using at_custom [THEN conjunct1]
    by (simp add: custom_columns_Where_def blank_Where_def NewSelect_def id_conditions_def
        flag_inclusion_conditions_def flag_exclusion_conditions_def range_conditions_def)
  have descriptor:
    "map_option FlagsCol (fst (Where_Where (Some custom_columns_Where) NewSelect)) =
       Some ''custom_flags''"
    "map_option CreatedAtCol (fst (Where_Where (Some custom_columns_Where) NewSelect)) =
       Some ''custom_created''"
    "map_option UpdatedAtCol (fst (Where_Where (Some custom_columns_Where) NewSelect)) =
       Some ''custom_updated''"
    using at_custom [THEN conjunct2, THEN conjunct2, THEN conjunct2]
    by (simp_all add: custom_columns_Where_def blank_Where_def)
  from conditions descriptor show ?thesis by simp
qed

text \<open>
  C10: with both OnlyDeleted and WithDeleted set, Where calls the only-deleted toggle of
  the query once and the include-deleted toggle not at all, and gives the query it gives
  with WithDeleted not set.
\<close>

theorem Where_only_deleted_precedence:
  assumes "OnlyDeleted w" and "WithDeleted w"
  shows "q_soft_delete (snd (Where_Where (Some w) q)) = q_soft_delete q @ [WhereDeleted]
       \<and> snd (Where_Where (Some w) q) = snd (Where_Where (Some (w\<lparr>WithDeleted := False\<rparr>)) q)"
proof -
  have "emit_conditions (w\<lparr>WithDeleted := False\<rparr>) q = emit_conditions w q"
    using assms by (simp add: emit_conditions_def cong: if_cong split del: if_split)
  then show ?thesis
    using assms
    by (simp add: Where_Where_query emit_conditions_soft_delete)
qed

theorem Where_only_deleted_precedence_witness:
  "q_soft_delete (snd (Where_Where (Some both_deleted_Where) NewSelect)) = [WhereDeleted]"
proof -
  have only: "OnlyDeleted both_deleted_Where" and also_with: "WithDeleted both_deleted_Where"
    by (simp_all add: both_deleted_Where_def)
  show ?thesis
    using Where_only_deleted_precedence [OF only also_with, of NewSelect, THEN conjunct1]
    by (simp add: NewSelect_def)
qed

lemma Where_Select_order:
  "q_order (Where_Select (Some w) q) =
     (case Order w (SortBy w) of
        None \<Rightarrow> q_order q
      | Some col \<Rightarrow> q_order q @ [col @ (if SortDesc w then '' desc'' else '' asc'')])"
  by (simp add: Where_Select_def Let_def SelectQuery_Column_def SelectQuery_ExcludeColumn_def
      SelectQuery_Limit_def SelectQuery_Offset_def SelectQuery_Order_def OrderAsc_def OrderDesc_def
      split: option.split)

text \<open>
  C9: Select is total, it returns a query and no error. When the Order map has no
  entry for SortBy the order of the query is left as it was; when it has the entry
  \<open>col\<close>, one order expression is added, \<open>col\<close> followed by \<open>desc\<close> when SortDesc is
  set and by \<open>asc\<close> when it is not.
\<close>

theorem Where_Select_order_only_if_resolved:
  "(Order w (SortBy w) = None \<longrightarrow> q_order (Where_Select (Some w) q) = q_order q)
   \<and> (\<forall>col. Order w (SortBy w) = Some col \<longrightarrow>
         q_order (Where_Select (Some w) q) =
           q_order q @ [col @ (if SortDesc w then '' desc'' else '' asc'')])"
proof (cases "Order w (SortBy w)")
  case None
  then show ?thesis using Where_Select_order [of w q] by simp
next
  case (Some col)
  then show ?thesis using Where_Select_order [of w q] by simp
qed

theorem Where_Select_order_only_if_resolved_witness:
  "q_order (Where_Select (Some (sorted_Where 999 True)) NewSelect) = []
   \<and> q_order (Where_Select (Some (sorted_Where 1 True)) NewSelect) = [''name desc'']
   \<and> q_order (Where_Select (Some (sorted_Where 1 False)) NewSelect) = [''name asc'']"
  using Where_Select_order_only_if_resolved [of "sorted_Where 999 True" NewSelect]
    Where_Select_order_only_if_resolved [of "sorted_Where 1 True" NewSelect]
    Where_Select_order_only_if_resolved [of "sorted_Where 1 False" NewSelect]
  by (simp add: sorted_Where_def blank_Where_def NewSelect_def)

end
